theory Spec2Isabelle
  imports Complex_Main "HOL-Library.Word"
begin

section \<open>Strings and byte arrays\<close>

text \<open>
  A \<open>QString\<close> is a sequence of UTF-16 code units, a \<open>QByteArray\<close> a sequence of bytes.
  The C string literals of the source (\<^verbatim>\<open>"muralis"\<close>, \<^verbatim>\<open>"isLightMode"\<close>, ...) are ASCII,
  so their conversion to \<open>QString\<close> maps each character to the code unit of the same value.
\<close>

type_synonym QChar = "16 word"
type_synonym QString = "QChar list"
type_synonym QStringList = "QString list"
type_synonym QByteArray = "8 word list"

definition QLatin1 :: "string \<Rightarrow> QString" where
  "QLatin1 cs = map (\<lambda>c. of_nat (of_char c)) cs"

section \<open>The process bridge (processrunner.cpp)\<close>

subsection \<open>The child-process object\<close>

text \<open>
  \<open>QProcess\<close> belongs to the toolkit, not to this repository. The record keeps the part
  of it that \<^verbatim>\<open>ProcessRunner::run\<close> touches: the program and the arguments handed to
  \<^verbatim>\<open>start\<close>, the process state, the two separate output channels (the source never
  changes the default channel mode), the slot connected to the \<^verbatim>\<open>finished\<close> signal (the
  lambda of the source captures \<^verbatim>\<open>requestId\<close> by value, so the connection is
  represented by that captured copy), and the two stages of \<^verbatim>\<open>deleteLater\<close>.
\<close>

datatype ProcessState = NotRunning | Starting | Running

datatype ExitStatus = NormalExit | CrashExit

record QProcess =
  program :: QString
  arguments :: QStringList
  processState :: ProcessState
  stdoutBuffer :: QByteArray
  stderrBuffer :: QByteArray
  finishedConnection :: "QString option"
  deleteRequested :: bool
  deleted :: bool

definition newQProcess :: QProcess where
  "newQProcess =
     \<lparr>program = [], arguments = [], processState = NotRunning,
      stdoutBuffer = [], stderrBuffer = [], finishedConnection = None,
      deleteRequested = False, deleted = False\<rparr>"

text \<open>
  \<^verbatim>\<open>connect(proc, &QProcess::finished, this, [this, proc, requestId](...) {...})\<close>
\<close>

definition connectFinished :: "QString \<Rightarrow> QProcess \<Rightarrow> QProcess" where
  "connectFinished requestId proc = proc\<lparr>finishedConnection := Some requestId\<rparr>"

text \<open>
  \<^verbatim>\<open>proc->start(program, args)\<close>: a process object that is already starting or running
  refuses the call; otherwise the launch request (program and arguments) goes to the
  operating system and the object is \<open>Starting\<close>. The second component is the list of
  launch requests issued by the call.
\<close>

definition start ::
  "QString \<Rightarrow> QStringList \<Rightarrow> QProcess \<Rightarrow> QProcess \<times> (QString \<times> QStringList) list" where
  "start prog args proc =
     (if processState proc = NotRunning
      then (proc\<lparr>program := prog, arguments := args, processState := Starting\<rparr>,
            [(prog, args)])
      else (proc, []))"

subsection \<open>The bridge object\<close>

text \<open>
  One emission of \<^verbatim>\<open>ProcessRunner::finished(requestId, stdoutData, exitCode)\<close>. The
  field \<open>origin\<close> is not an argument of the signal: it records which process object's
  callback made the emission (the index of the object in creation order).
\<close>

record Finished =
  origin :: nat
  requestId :: QString
  stdoutData :: QString
  exitCode :: int

text \<open>
  The state of a \<open>ProcessRunner\<close>: the process objects it has created (its children, in
  creation order), the launch requests issued so far, and the \<^verbatim>\<open>finished\<close> signals
  emitted so far. \<open>finished\<close> is the only signal the class declares.
\<close>

record ProcessRunner =
  procs :: "QProcess list"
  launched :: "(QString \<times> QStringList) list"
  signals :: "Finished list"

definition newProcessRunner :: ProcessRunner where
  "newProcessRunner = \<lparr>procs = [], launched = [], signals = []\<rparr>"

text \<open>
  \<^verbatim>\<open>void ProcessRunner::run(const QString &requestId, const QStringList &args)\<close>:
  a new process object, the connection of the callback, then the start of
  \<^verbatim>\<open>"muralis"\<close> with the arguments of the caller. Nothing is emitted here.
\<close>

definition run :: "QString \<Rightarrow> QStringList \<Rightarrow> ProcessRunner \<Rightarrow> ProcessRunner" where
  "run rid args r =
     (let proc = connectFinished rid newQProcess;
          (proc', reqs) = start (QLatin1 ''muralis'') args proc
      in r\<lparr>procs := procs r @ [proc'], launched := launched r @ reqs\<rparr>)"

text \<open>
  The callback connected in \<open>run\<close>, for the process object \<open>pid\<close> and the captured
  request identifier \<open>rid\<close>:
  \<^verbatim>\<open>QString output = QString::fromUtf8(proc->readAllStandardOutput());\<close>
  \<^verbatim>\<open>emit finished(requestId, output, exitCode);\<close>
  \<^verbatim>\<open>proc->deleteLater();\<close>
  \<^verbatim>\<open>readAllStandardOutput\<close> returns what the standard-output channel holds and empties it.
  The decoder \<^verbatim>\<open>QString::fromUtf8\<close> is a parameter. The exit status is ignored, as in
  the source.
\<close>

definition finishedSlot ::
  "(QByteArray \<Rightarrow> QString) \<Rightarrow> nat \<Rightarrow> QString \<Rightarrow> int \<Rightarrow> ExitStatus \<Rightarrow> QProcess
     \<Rightarrow> QProcess \<times> Finished list" where
  "finishedSlot fromUtf8 pid rid code status proc =
     (let output = fromUtf8 (stdoutBuffer proc);
          proc1 = proc\<lparr>stdoutBuffer := []\<rparr>;
          emitted = \<lparr>origin = pid, requestId = rid, stdoutData = output, exitCode = code\<rparr>
      in (proc1\<lparr>deleteRequested := True\<rparr>, [emitted]))"

subsection \<open>What the event loop delivers\<close>

text \<open>
  Everything after \<open>run\<close> happens on the event loop. The notifications a process object
  can receive are: the child started; the child could not be started (the object emits
  \<^verbatim>\<open>errorOccurred(FailedToStart)\<close>, to which the source connects nothing, and is
  \<open>NotRunning\<close> again, without a \<^verbatim>\<open>finished\<close> signal); bytes arrived on one of the two
  channels of a running child; the running child exited (the object is \<open>NotRunning\<close>
  and emits \<^verbatim>\<open>finished(exitCode, exitStatus)\<close>, which runs the connected callback);
  the deferred deletion asked by \<^verbatim>\<open>deleteLater\<close> is carried out. A notification that
  does not fit the state of the object, or that reaches a deleted object, has no effect.
\<close>

datatype Notification =
    ProcStarted
  | FailedToStart
  | StdoutReady QByteArray
  | StderrReady QByteArray
  | ProcExited int ExitStatus
  | DeferredDelete

fun notify ::
  "(QByteArray \<Rightarrow> QString) \<Rightarrow> nat \<Rightarrow> Notification \<Rightarrow> QProcess \<Rightarrow> QProcess \<times> Finished list"
  where
  "notify fromUtf8 pid ProcStarted proc =
     (if processState proc = Starting \<and> \<not> deleted proc
      then (proc\<lparr>processState := Running\<rparr>, []) else (proc, []))"
| "notify fromUtf8 pid FailedToStart proc =
     (if processState proc = Starting \<and> \<not> deleted proc
      then (proc\<lparr>processState := NotRunning\<rparr>, []) else (proc, []))"
| "notify fromUtf8 pid (StdoutReady bytes) proc =
     (if processState proc = Running \<and> \<not> deleted proc
      then (proc\<lparr>stdoutBuffer := stdoutBuffer proc @ bytes\<rparr>, []) else (proc, []))"
| "notify fromUtf8 pid (StderrReady bytes) proc =
     (if processState proc = Running \<and> \<not> deleted proc
      then (proc\<lparr>stderrBuffer := stderrBuffer proc @ bytes\<rparr>, []) else (proc, []))"
| "notify fromUtf8 pid (ProcExited code status) proc =
     (if processState proc = Running \<and> \<not> deleted proc
      then (case finishedConnection proc of
              None \<Rightarrow> (proc\<lparr>processState := NotRunning\<rparr>, [])
            | Some rid \<Rightarrow>
                finishedSlot fromUtf8 pid rid code status (proc\<lparr>processState := NotRunning\<rparr>))
      else (proc, []))"
| "notify fromUtf8 pid DeferredDelete proc =
     (if deleteRequested proc \<and> \<not> deleted proc
      then (proc\<lparr>deleted := True\<rparr>, []) else (proc, []))"

text \<open>
  An event of the bridge: a call of \<open>run\<close> from the user interface, or a notification
  for the process object with the given index.
\<close>

datatype Event =
    Run QString QStringList
  | Proc nat Notification

fun step :: "(QByteArray \<Rightarrow> QString) \<Rightarrow> ProcessRunner \<Rightarrow> Event \<Rightarrow> ProcessRunner" where
  "step fromUtf8 r (Run rid args) = run rid args r"
| "step fromUtf8 r (Proc pid n) =
     (if pid < length (procs r)
      then (let (proc', emitted) = notify fromUtf8 pid n (procs r ! pid)
            in r\<lparr>procs := (procs r)[pid := proc'], signals := signals r @ emitted\<rparr>)
      else r)"

definition exec :: "(QByteArray \<Rightarrow> QString) \<Rightarrow> Event list \<Rightarrow> ProcessRunner" where
  "exec fromUtf8 evs = foldl (step fromUtf8) newProcessRunner evs"

text \<open>The calls of \<open>run\<close> in a sequence of events, in order: call number \<open>i\<close> creates
  the process object with index \<open>i\<close>.\<close>

fun runCalls :: "Event list \<Rightarrow> (QString \<times> QStringList) list" where
  "runCalls [] = []"
| "runCalls (Run rid args # evs) = (rid, args) # runCalls evs"
| "runCalls (Proc pid n # evs) = runCalls evs"

definition signalsOf :: "nat \<Rightarrow> ProcessRunner \<Rightarrow> Finished list" where
  "signalsOf pid r = filter (\<lambda>e. origin e = pid) (signals r)"

fun isStderr :: "Event \<Rightarrow> bool" where
  "isStderr (Proc pid (StderrReady bytes)) = True"
| "isStderr ev = False"

subsection \<open>Relations used in the proofs\<close>

text \<open>
  The invariant of the bridge: a process object that is still starting or running has
  produced no \<open>finished\<close> signal and has not been scheduled for deletion; no object has
  produced more than one; every signal comes from an object that exists.
\<close>

definition tidy :: "ProcessRunner \<Rightarrow> bool" where
  "tidy r \<longleftrightarrow>
     (\<forall>p < length (procs r).
        (processState (procs r ! p) \<noteq> NotRunning \<longrightarrow>
           signalsOf p r = [] \<and> \<not> deleted (procs r ! p) \<and>
           \<not> deleteRequested (procs r ! p)) \<and>
        length (signalsOf p r) \<le> 1) \<and>
     (\<forall>e \<in> set (signals r). origin e < length (procs r))"

text \<open>
  The events of invocation \<open>p\<close> alone: its own call of \<open>run\<close> and the notifications
  for its process object, which is then the first and only object (index 0). Every other
  call of \<open>run\<close> and every notification for another object is removed. \<open>k\<close> is the number
  of objects created before the first event of the list.
\<close>

fun onlyOwn :: "nat \<Rightarrow> nat \<Rightarrow> Event list \<Rightarrow> Event list" where
  "onlyOwn p k [] = []"
| "onlyOwn p k (Run rid args # evs) =
     (if k = p then [Run rid args] else []) @ onlyOwn p (Suc k) evs"
| "onlyOwn p k (Proc pid n # evs) =
     (if pid = p then [Proc 0 n] else []) @ onlyOwn p k evs"

text \<open>The arguments of a \<open>finished\<close> signal, without the index of the object that
  caused it.\<close>

definition payload :: "Finished \<Rightarrow> QString \<times> QString \<times> int" where
  "payload e = (requestId e, stdoutData e, exitCode e)"

text \<open>Everything of a process object but its standard-error channel.\<close>

definition visible ::
  "QProcess \<Rightarrow> QString \<times> QStringList \<times> ProcessState \<times> QByteArray \<times> QString option \<times> bool \<times> bool"
  where
  "visible q =
     (program q, arguments q, processState q, stdoutBuffer q, finishedConnection q,
      deleteRequested q, deleted q)"

definition sameButStderr :: "ProcessRunner \<Rightarrow> ProcessRunner \<Rightarrow> bool" where
  "sameButStderr r r' \<longleftrightarrow>
     map visible (procs r) = map visible (procs r') \<and> signals r = signals r'"

text \<open>
  The bridge \<open>r'\<close> holds object \<open>p\<close> of the bridge \<open>r\<close> as its only object (or no object,
  when \<open>r\<close> has not created \<open>p\<close> yet), and has emitted for it what \<open>r\<close> has emitted for \<open>p\<close>.
\<close>

definition sameOwn :: "nat \<Rightarrow> ProcessRunner \<Rightarrow> ProcessRunner \<Rightarrow> bool" where
  "sameOwn p r r' \<longleftrightarrow>
     procs r' = (if p < length (procs r) then [procs r ! p] else []) \<and>
     map payload (signalsOf p r) = map payload (signalsOf 0 r')"

section \<open>Application start-up (main.cpp)\<close>

subsection \<open>JSON values\<close>

text \<open>
  The kinds of \<open>QJsonValue\<close>, an object being a finite map from keys to values, and the
  three kinds of \<open>QJsonDocument\<close>: null (also the result of a failed parse), an array, an
  object. The parser \<^verbatim>\<open>QJsonDocument::fromJson\<close> is a parameter of the functions below.
\<close>

datatype QJsonValue =
    JsonNull
  | JsonBool bool
  | JsonDouble real
  | JsonString QString
  | JsonArray "QJsonValue list"
  | JsonObject "QString \<Rightarrow> QJsonValue option"
  | JsonUndefined

type_synonym QJsonObject = "QString \<Rightarrow> QJsonValue option"

datatype QJsonDocument =
    NullDocument
  | ArrayDocument "QJsonValue list"
  | ObjectDocument QJsonObject

text \<open>\<^verbatim>\<open>QJsonDocument::object()\<close>: the object of an object document, an empty object
  otherwise.\<close>

fun object :: "QJsonDocument \<Rightarrow> QJsonObject" where
  "object (ObjectDocument obj) = obj"
| "object doc = Map.empty"

text \<open>\<^verbatim>\<open>QJsonObject::value(key)\<close>: the value stored under the key, \<open>Undefined\<close> when the
  key is absent.\<close>

definition "value" :: "QJsonObject \<Rightarrow> QString \<Rightarrow> QJsonValue" where
  "value obj key = (case obj key of None \<Rightarrow> JsonUndefined | Some v \<Rightarrow> v)"

text \<open>\<^verbatim>\<open>QJsonValue::toBool(defaultValue)\<close>: the boolean of a boolean value, the default
  for every other kind.\<close>

fun toBool :: "QJsonValue \<Rightarrow> bool \<Rightarrow> bool" where
  "toBool (JsonBool b) defaultValue = b"
| "toBool v defaultValue = defaultValue"

subsection \<open>Reading the session file\<close>

text \<open>
  \<^verbatim>\<open>static QJsonObject readJsonFile(const QString &path)\<close>:
  \<^verbatim>\<open>if (!file.open(QIODevice::ReadOnly)) return {};\<close>
  \<^verbatim>\<open>return QJsonDocument::fromJson(file.readAll()).object();\<close>
  The file system is a map from paths to contents; a path it does not map cannot be
  opened.
\<close>

definition readJsonFile ::
  "(QByteArray \<Rightarrow> QJsonDocument) \<Rightarrow> (QString \<Rightarrow> QByteArray option) \<Rightarrow> QString \<Rightarrow> QJsonObject"
  where
  "readJsonFile fromJson files path =
     (case files path of
        None \<Rightarrow> Map.empty
      | Some bytes \<Rightarrow> object (fromJson bytes))"

text \<open>
  \<^verbatim>\<open>QString::replace(before, after)\<close> for a non-empty pattern, the only use in the source
  (\<^verbatim>\<open>.replace("/share", "/state")\<close>): every occurrence, from left to right, the search
  going on after the text just inserted. An empty pattern leaves the string as it is
  here; the source never passes one.
\<close>

function replace :: "QString \<Rightarrow> QString \<Rightarrow> QString \<Rightarrow> QString" where
  "replace pat new [] = []"
| "replace pat new (c # cs) =
     (if pat \<noteq> [] \<and> take (length pat) (c # cs) = pat
      then new @ replace pat new (drop (length pat) (c # cs))
      else c # replace pat new cs)"
  by pat_completeness auto
termination
  by (relation "measure (\<lambda>(pat, new, s). length s)") auto

subsection \<open>The entry point\<close>

text \<open>
  What \<open>main\<close> reads from its surroundings: the two standard locations, the file
  system, the number of root objects the engine holds after \<^verbatim>\<open>engine.load\<close>, and the
  value \<^verbatim>\<open>app.exec()\<close> returns when the event loop ends.
\<close>

record Environment =
  genericDataLocation :: QString
  configLocation :: QString
  files :: "QString \<Rightarrow> QByteArray option"
  rootObjects :: nat
  execResult :: int

text \<open>The lines \<open>main\<close> prints on the standard error stream.\<close>

datatype Line =
    LoadingQML
  | ConfigDirLine QString
  | StateDirLine QString
  | IsDarkLine bool
  | FailedToLoadQML
  | QMLLoadedOK nat

text \<open>
  What \<open>main\<close> does: the value it returns, the environment variables it sets (in order),
  the string context properties it exposes, the lines it prints, and whether it entered
  the event loop.
\<close>

record Outcome =
  returned :: int
  environment :: "(string \<times> string) list"
  contextProperties :: "(string \<times> QString) list"
  printed :: "Line list"
  eventLoop :: bool

definition stateDir :: "Environment \<Rightarrow> QString" where
  "stateDir env = replace (QLatin1 ''/share'') (QLatin1 ''/state'') (genericDataLocation env)"

definition sessionPath :: "Environment \<Rightarrow> QString" where
  "sessionPath env = stateDir env @ QLatin1 ''/DankMaterialShell/session.json''"

text \<open>\<^verbatim>\<open>bool isDark = !session.value("isLightMode").toBool(false);\<close>\<close>

definition isDark :: "(QByteArray \<Rightarrow> QJsonDocument) \<Rightarrow> Environment \<Rightarrow> bool" where
  "isDark fromJson env =
     (let session = readJsonFile fromJson (files env) (sessionPath env)
      in \<not> toBool (value session (QLatin1 ''isLightMode'')) False)"

definition main :: "(QByteArray \<Rightarrow> QJsonDocument) \<Rightarrow> Environment \<Rightarrow> Outcome" where
  "main fromJson env =
     (let dark = isDark fromJson env;
          vars = [(''QML_XHR_ALLOW_FILE_READ'', ''1''),
                  (''QT_QUICK_CONTROLS_MATERIAL_THEME'', if dark then ''Dark'' else ''Light'')];
          configDir = configLocation env;
          props = [(''ConfigDir'', configDir), (''StateDir'', stateDir env)];
          lines = [LoadingQML, ConfigDirLine configDir, StateDirLine (stateDir env),
                   IsDarkLine dark]
      in if rootObjects env = 0
         then \<lparr>returned = - 1, environment = vars, contextProperties = props,
               printed = lines @ [FailedToLoadQML], eventLoop = False\<rparr>
         else \<lparr>returned = execResult env, environment = vars, contextProperties = props,
               printed = lines @ [QMLLoadedOK (rootObjects env)], eventLoop = True\<rparr>)"

text \<open>The exit status the parent process sees: the low eight bits of the value returned
  by \<open>main\<close>.\<close>

definition exitStatus :: "int \<Rightarrow> int" where
  "exitStatus v = v mod 256"

text \<open>The value of the Material theme variable after \<open>main\<close> has set its variables.\<close>

definition materialTheme :: "Outcome \<Rightarrow> string option" where
  "materialTheme out = map_of (rev (environment out)) ''QT_QUICK_CONTROLS_MATERIAL_THEME''"


section \<open>Properties of the process bridge and of the start-up\<close>

subsection \<open>Auxiliary facts\<close>

lemma exec_snoc: "exec f (evs @ [ev]) = step f (exec f evs) ev"
  by (simp add: exec_def)

lemma exec_Nil: "exec f [] = newProcessRunner"
  by (simp add: exec_def)

lemma runCalls_snoc:
  "runCalls (evs @ [ev]) = runCalls evs @ (case ev of Run rid args \<Rightarrow> [(rid, args)] | Proc pid n \<Rightarrow> [])"
  by (induction evs rule: runCalls.induct) (auto split: Event.splits)

lemma run_procs:
  "procs (run rid args r) = procs r @
     [newQProcess\<lparr>program := QLatin1 ''muralis'', arguments := args, processState := Starting,
        finishedConnection := Some rid\<rparr>]"
  by (simp add: run_def start_def connectFinished_def newQProcess_def)

lemma run_launched: "launched (run rid args r) = launched r @ [(QLatin1 ''muralis'', args)]"
  by (simp add: run_def start_def connectFinished_def newQProcess_def)

lemma run_signals: "signals (run rid args r) = signals r"
  by (simp add: run_def start_def connectFinished_def newQProcess_def)

lemma notify_static:
  "program (fst (notify f pid n q)) = program q"
  "arguments (fst (notify f pid n q)) = arguments q"
  "finishedConnection (fst (notify f pid n q)) = finishedConnection q"
  by (cases n; simp add: finishedSlot_def split: option.splits)+

lemma notify_emitted:
  "e \<in> set (snd (notify f pid n q)) \<Longrightarrow>
     origin e = pid \<and> finishedConnection q = Some (requestId e)"
  by (cases n) (auto simp: finishedSlot_def split: option.splits if_splits)

lemma step_Proc_length: "length (procs (step f r (Proc pid n))) = length (procs r)"
  by (simp split: prod.splits)

lemma step_Proc_launched: "launched (step f r (Proc pid n)) = launched r"
  by (simp split: prod.splits)

lemma step_Proc_nth:
  "p < length (procs r) \<Longrightarrow>
   procs (step f r (Proc pid n)) ! p = (if p = pid then fst (notify f pid n (procs r ! pid)) else procs r ! p)"
  by (simp split: prod.splits)

lemma step_Proc_signals:
  "signals (step f r (Proc pid n)) =
     signals r @ (if pid < length (procs r) then snd (notify f pid n (procs r ! pid)) else [])"
  by (simp split: prod.splits)

lemma exec_length: "length (procs (exec f evs)) = length (runCalls evs)"
proof (induction evs rule: rev_induct)
  case Nil
  show ?case by (simp add: exec_Nil newProcessRunner_def)
next
  case (snoc ev evs)
  show ?case
  proof (cases ev)
    case (Run rid args)
    with snoc show ?thesis by (simp add: exec_snoc runCalls_snoc run_procs)
  next
    case (Proc pid n)
    with snoc show ?thesis
      by (simp only: exec_snoc runCalls_snoc step_Proc_length) simp
  qed
qed

lemma exec_launched:
  "launched (exec f evs) = map (\<lambda>c. (QLatin1 ''muralis'', snd c)) (runCalls evs)"
proof (induction evs rule: rev_induct)
  case Nil
  show ?case by (simp add: exec_Nil newProcessRunner_def)
next
  case (snoc ev evs)
  show ?case
  proof (cases ev)
    case (Run rid args)
    with snoc show ?thesis by (simp add: exec_snoc runCalls_snoc run_launched)
  next
    case (Proc pid n)
    with snoc show ?thesis
      by (simp only: exec_snoc runCalls_snoc step_Proc_launched) simp
  qed
qed

lemma exec_object:
  "p < length (runCalls evs) \<Longrightarrow>
     finishedConnection (procs (exec f evs) ! p) = Some (fst (runCalls evs ! p)) \<and>
     program (procs (exec f evs) ! p) = QLatin1 ''muralis'' \<and>
     arguments (procs (exec f evs) ! p) = snd (runCalls evs ! p)"
proof (induction evs rule: rev_induct)
  case Nil
  then show ?case by simp
next
  case (snoc ev evs)
  show ?case
  proof (cases ev)
    case (Run rid args)
    show ?thesis
    proof (cases "p < length (runCalls evs)")
      case True
      with snoc.IH Run show ?thesis
        by (simp add: exec_snoc runCalls_snoc run_procs nth_append exec_length)
    next
      case False
      with snoc.prems Run have "p = length (runCalls evs)"
        by (simp add: runCalls_snoc)
      with Run show ?thesis
        by (simp add: exec_snoc runCalls_snoc run_procs nth_append exec_length)
    qed
  next
    case (Proc pid n)
    with snoc.prems have p: "p < length (runCalls evs)"
      by (simp add: runCalls_snoc)
    then have "p < length (procs (exec f evs))" by (simp add: exec_length)
    with snoc.IH [OF p] Proc show ?thesis
      by (cases "p = pid")
         (simp_all add: exec_snoc runCalls_snoc step_Proc_nth notify_static del: step.simps)
  qed
qed

lemma exec_signal:
  "e \<in> set (signals (exec f evs)) \<Longrightarrow>
     origin e < length (runCalls evs) \<and> requestId e = fst (runCalls evs ! origin e)"
proof (induction evs rule: rev_induct)
  case Nil
  then show ?case by (simp add: exec_Nil newProcessRunner_def)
next
  case (snoc ev evs)
  show ?case
  proof (cases ev)
    case (Run rid args)
    with snoc show ?thesis
      by (auto simp: exec_snoc runCalls_snoc run_signals nth_append)
  next
    case (Proc pid n)
    from snoc.prems Proc
    consider (old) "e \<in> set (signals (exec f evs))"
      | (new) "pid < length (procs (exec f evs))"
              "e \<in> set (snd (notify f pid n (procs (exec f evs) ! pid)))"
      by (cases "pid < length (procs (exec f evs))")
         (simp_all add: exec_snoc step_Proc_signals del: step.simps, blast)
    then show ?thesis
    proof cases
      case old
      with snoc.IH Proc show ?thesis by (simp add: runCalls_snoc)
    next
      case new
      from notify_emitted [OF new(2)]
      have o: "origin e = pid"
        and c: "finishedConnection (procs (exec f evs) ! pid) = Some (requestId e)"
        by simp_all
      from new(1) have lt: "pid < length (runCalls evs)" by (simp add: exec_length)
      from exec_object [OF lt, of f] c have "requestId e = fst (runCalls evs ! pid)" by simp
      with o lt Proc show ?thesis by (simp add: runCalls_snoc)
    qed
  qed
qed

lemma notify_origin: "e \<in> set (snd (notify f pid n q)) \<Longrightarrow> origin e = pid"
  by (cases n) (auto simp: finishedSlot_def split: option.splits if_splits)

lemma notify_idle:
  "processState q = NotRunning \<Longrightarrow>
     snd (notify f pid n q) = [] \<and> processState (fst (notify f pid n q)) = NotRunning"
  by (cases n) simp_all

lemma notify_busy:
  "processState (fst (notify f pid n q)) \<noteq> NotRunning \<Longrightarrow>
     snd (notify f pid n q) = [] \<and> processState q \<noteq> NotRunning \<and>
     (\<not> deleteRequested q \<longrightarrow>
        deleted (fst (notify f pid n q)) = deleted q \<and>
        \<not> deleteRequested (fst (notify f pid n q)))"
  by (cases n) (auto simp: finishedSlot_def split: option.splits if_splits)

lemma notify_atmost: "length (snd (notify f pid n q)) \<le> 1"
  by (cases n) (auto simp: finishedSlot_def split: option.splits)

lemma signalsOf_run: "signalsOf p (run rid args r) = signalsOf p r"
  by (simp add: signalsOf_def run_signals)

lemma signalsOf_Proc:
  "signalsOf p (step f r (Proc pid n)) =
     signalsOf p r @
       (if p = pid \<and> pid < length (procs r) then snd (notify f pid n (procs r ! pid)) else [])"
proof -
  have same: "filter (\<lambda>e. origin e = pid) (snd (notify f pid n q)) = snd (notify f pid n q)" for q
    by (simp add: filter_id_conv notify_origin)
  have other: "p \<noteq> pid \<Longrightarrow> filter (\<lambda>e. origin e = p) (snd (notify f pid n q)) = []" for q
    by (auto simp: filter_empty_conv dest: notify_origin)
  show ?thesis
    by (cases "p = pid") (simp_all add: signalsOf_def step_Proc_signals same other del: step.simps)
qed

lemma tidyI:
  assumes "\<And>p. p < length (procs r) \<Longrightarrow> processState (procs r ! p) \<noteq> NotRunning \<Longrightarrow>
              signalsOf p r = [] \<and> \<not> deleted (procs r ! p) \<and> \<not> deleteRequested (procs r ! p)"
    and "\<And>p. p < length (procs r) \<Longrightarrow> length (signalsOf p r) \<le> 1"
    and "\<And>e. e \<in> set (signals r) \<Longrightarrow> origin e < length (procs r)"
  shows "tidy r"
  using assms by (simp add: tidy_def)

lemma tidy_new: "tidy newProcessRunner"
  by (simp add: tidy_def newProcessRunner_def)

lemma tidy_run:
  assumes "tidy r"
  shows "tidy (run rid args r)"
proof -
  have none: "signalsOf (length (procs r)) r = []"
    using assms by (auto simp: tidy_def signalsOf_def filter_empty_conv)
  show ?thesis
  proof (rule tidyI)
    fix p assume "p < length (procs (run rid args r))"
    then have "p < length (procs r) \<or> p = length (procs r)" by (auto simp: run_procs)
    then show "length (signalsOf p (run rid args r)) \<le> 1"
      using assms none by (auto simp: tidy_def signalsOf_run)
  next
    fix p
    assume lt: "p < length (procs (run rid args r))"
      and busy: "processState (procs (run rid args r) ! p) \<noteq> NotRunning"
    from lt have "p < length (procs r) \<or> p = length (procs r)" by (auto simp: run_procs)
    then show "signalsOf p (run rid args r) = [] \<and> \<not> deleted (procs (run rid args r) ! p) \<and>
        \<not> deleteRequested (procs (run rid args r) ! p)"
    proof
      assume old: "p < length (procs r)"
      with busy assms show ?thesis
        by (simp add: tidy_def signalsOf_run run_procs nth_append)
    next
      assume "p = length (procs r)"
      with none show ?thesis
        by (simp add: signalsOf_run run_procs newQProcess_def)
    qed
  next
    fix e assume "e \<in> set (signals (run rid args r))"
    with assms show "origin e < length (procs (run rid args r))"
      by (auto simp: tidy_def run_signals run_procs less_Suc_eq)
  qed
qed

lemma tidy_Proc:
  assumes "tidy r"
  shows "tidy (step f r (Proc pid n))"
proof (cases "pid < length (procs r)")
  case False
  with assms show ?thesis by simp
next
  case pid: True
  let ?r' = "step f r (Proc pid n)"
  let ?q = "procs r ! pid"
  show ?thesis
  proof (rule tidyI)
    fix p assume "p < length (procs ?r')"
    then have p: "p < length (procs r)" by (simp only: step_Proc_length)
    show "length (signalsOf p ?r') \<le> 1"
    proof (cases "p = pid \<and> snd (notify f pid n ?q) \<noteq> []")
      case True
      then have "processState ?q \<noteq> NotRunning" using notify_idle by blast
      with assms pid have "signalsOf pid r = []" by (simp add: tidy_def)
      with True notify_atmost [of f pid n ?q] show ?thesis
        by (simp add: signalsOf_Proc pid del: step.simps)
    next
      case False
      with assms p show ?thesis
        by (auto simp: signalsOf_Proc tidy_def simp del: step.simps)
    qed
  next
    fix p
    assume "p < length (procs ?r')"
      and busy: "processState (procs ?r' ! p) \<noteq> NotRunning"
    then have p: "p < length (procs r)" by (simp only: step_Proc_length)
    show "signalsOf p ?r' = [] \<and> \<not> deleted (procs ?r' ! p) \<and>
        \<not> deleteRequested (procs ?r' ! p)"
    proof (cases "p = pid")
      case True
      with busy p have "processState (fst (notify f pid n ?q)) \<noteq> NotRunning"
        by (simp add: step_Proc_nth del: step.simps)
      from notify_busy [OF this] assms pid True p show ?thesis
        by (simp add: signalsOf_Proc step_Proc_nth tidy_def del: step.simps)
    next
      case False
      with busy p assms show ?thesis
        by (simp add: signalsOf_Proc step_Proc_nth tidy_def del: step.simps)
    qed
  next
    fix e assume "e \<in> set (signals ?r')"
    then have "e \<in> set (signals r) \<or> e \<in> set (snd (notify f pid n ?q))"
      by (simp add: step_Proc_signals pid del: step.simps)
    then show "origin e < length (procs ?r')"
      using assms pid by (auto simp: tidy_def step_Proc_length dest: notify_origin simp del: step.simps)
  qed
qed

lemma tidy_step: "tidy r \<Longrightarrow> tidy (step f r ev)"
  by (cases ev) (simp_all add: tidy_run tidy_Proc del: step.simps add: step.simps(1))

lemma tidy_exec: "tidy (exec f evs)"
  by (induction evs rule: rev_induct) (simp_all add: exec_Nil exec_snoc tidy_new tidy_step del: step.simps)

lemma quiet_step:
  assumes "p < length (procs r)" "processState (procs r ! p) = NotRunning"
  shows "p < length (procs (step f r ev)) \<and>
         processState (procs (step f r ev) ! p) = NotRunning \<and>
         signalsOf p (step f r ev) = signalsOf p r"
proof (cases ev)
  case (Run rid args)
  with assms show ?thesis by (simp add: run_procs nth_append signalsOf_run)
next
  case (Proc pid n)
  with assms notify_idle [of "procs r ! p" f p n] show ?thesis
    by (cases "p = pid")
       (simp_all add: step_Proc_length step_Proc_nth signalsOf_Proc del: step.simps)
qed

lemma quiet_foldl:
  "p < length (procs r) \<Longrightarrow> processState (procs r ! p) = NotRunning \<Longrightarrow>
     signalsOf p (foldl (step f) r evs) = signalsOf p r"
proof (induction evs arbitrary: r)
  case Nil
  show ?case by simp
next
  case (Cons ev evs)
  from quiet_step [OF Cons.prems, of f ev] Cons.IH [of "step f r ev"]
  show ?case by (simp del: step.simps)
qed

lemma exec_append: "exec f (evs @ ev # rest) = foldl (step f) (step f (exec f evs) ev) rest"
  by (simp add: exec_def)

lemma runCalls_append: "runCalls (xs @ ys) = runCalls xs @ runCalls ys"
  by (induction xs rule: runCalls.induct) simp_all

lemma notify_visible:
  "visible q = visible q' \<Longrightarrow>
     visible (fst (notify f pid n q)) = visible (fst (notify f pid n q')) \<and>
     snd (notify f pid n q) = snd (notify f pid n q')"
  by (cases n) (auto simp: visible_def finishedSlot_def split: option.splits)

lemma notify_stderr:
  "visible (fst (notify f pid (StderrReady bytes) q)) = visible q \<and>
   snd (notify f pid (StderrReady bytes) q) = []"
  by (simp add: visible_def)

lemma step_Proc_procs:
  "procs (step f r (Proc pid n)) =
     (if pid < length (procs r) then (procs r)[pid := fst (notify f pid n (procs r ! pid))]
      else procs r)"
  by (simp split: prod.splits)

lemma sameButStderr_step:
  assumes "sameButStderr r r'"
  shows "sameButStderr (step f r ev) (step f r' ev)"
proof (cases ev)
  case (Run rid args)
  with assms show ?thesis by (simp add: sameButStderr_def run_procs run_signals)
next
  case (Proc pid n)
  from assms have len: "length (procs r) = length (procs r')"
    unfolding sameButStderr_def by (metis length_map)
  show ?thesis
  proof (cases "pid < length (procs r)")
    case False
    with assms len Proc show ?thesis by simp
  next
    case True
    with assms len have "visible (procs r ! pid) = visible (procs r' ! pid)"
      unfolding sameButStderr_def by (metis nth_map)
    from notify_visible [OF this, of f pid n] assms True len Proc show ?thesis
      by (simp add: sameButStderr_def step_Proc_signals step_Proc_procs map_update
            del: step.simps notify.simps)
  qed
qed

lemma sameButStderr_drop:
  assumes "sameButStderr r r'" "isStderr ev"
  shows "sameButStderr (step f r ev) r'"
proof -
  from assms(2) obtain pid bytes where ev: "ev = Proc pid (StderrReady bytes)"
    by (cases ev rule: isStderr.cases) simp_all
  show ?thesis
  proof (cases "pid < length (procs r)")
    case False
    with assms ev show ?thesis by simp
  next
    case True
    have "map visible ((procs r)[pid := fst (notify f pid (StderrReady bytes) (procs r ! pid))])
            = map visible (procs r)"
      by (simp only: map_update notify_stderr) (simp add: True list_update_same_conv)
    with assms(1) True ev notify_stderr [of f pid bytes "procs r ! pid"] show ?thesis
      by (simp add: sameButStderr_def step_Proc_signals step_Proc_procs
            del: step.simps notify.simps)
  qed
qed

lemma sameButStderr_foldl:
  "sameButStderr r r' \<Longrightarrow>
     sameButStderr (foldl (step f) r evs) (foldl (step f) r' (filter (\<lambda>ev. \<not> isStderr ev) evs))"
proof (induction evs arbitrary: r r')
  case Nil
  then show ?case by simp
next
  case (Cons ev evs)
  show ?case
  proof (cases "isStderr ev")
    case True
    from Cons.IH [OF sameButStderr_drop [OF Cons.prems True]] True
    show ?thesis by (simp del: step.simps)
  next
    case False
    from Cons.IH [OF sameButStderr_step [OF Cons.prems]] False
    show ?thesis by (simp del: step.simps)
  qed
qed

lemma notify_renumbered:
  "fst (notify f pid n q) = fst (notify f 0 n q) \<and>
   map payload (snd (notify f pid n q)) = map payload (snd (notify f 0 n q))"
  by (cases n) (simp_all add: finishedSlot_def payload_def split: option.splits)

lemma sameOwn_run:
  assumes "sameOwn p r r'"
  shows "sameOwn p (run rid args r)
           (foldl (step f) r' (if length (procs r) = p then [Run rid args] else []))"
proof (cases "length (procs r) = p")
  case True
  with assms have "procs r' = []" by (simp add: sameOwn_def)
  with assms True [symmetric] show ?thesis
    by (simp add: sameOwn_def run_procs signalsOf_run nth_append)
next
  case False
  with assms show ?thesis
    by (auto simp: sameOwn_def run_procs signalsOf_run nth_append)
qed

lemma sameOwn_own:
  assumes "sameOwn p r r'"
  shows "sameOwn p (step f r (Proc p n)) (step f r' (Proc 0 n))"
proof (cases "p < length (procs r)")
  case False
  with assms show ?thesis by (simp add: sameOwn_def)
next
  case True
  with assms have r': "procs r' = [procs r ! p]"
    and sig: "map payload (signalsOf p r) = map payload (signalsOf 0 r')"
    by (simp_all add: sameOwn_def)
  from notify_renumbered [of f p n "procs r ! p"] True r' sig show ?thesis
    by (simp add: sameOwn_def step_Proc_length step_Proc_nth step_Proc_procs signalsOf_Proc
          del: step.simps notify.simps)
qed

lemma sameOwn_other:
  assumes "sameOwn p r r'" "pid \<noteq> p"
  shows "sameOwn p (step f r (Proc pid n)) r'"
  using assms
  by (simp add: sameOwn_def step_Proc_length step_Proc_nth signalsOf_Proc del: step.simps)

lemma sameOwn_foldl:
  "sameOwn p r r' \<Longrightarrow>
     sameOwn p (foldl (step f) r evs)
               (foldl (step f) r' (onlyOwn p (length (procs r)) evs))"
proof (induction evs arbitrary: r r')
  case Nil
  then show ?case by simp
next
  case (Cons ev evs)
  show ?case
  proof (cases ev)
    case (Run rid args)
    from Cons.IH [OF sameOwn_run [OF Cons.prems, of rid args f]] Run show ?thesis
      by (simp add: run_procs del: step.simps add: step.simps(1))
  next
    case (Proc pid n)
    show ?thesis
    proof (cases "pid = p")
      case True
      from Cons.IH [OF sameOwn_own [OF Cons.prems, of f n]] True Proc
      show ?thesis by (simp add: step_Proc_length del: step.simps)
    next
      case False
      from Cons.IH [OF sameOwn_other [OF Cons.prems False, of f n]] False Proc
      show ?thesis by (simp add: step_Proc_length del: step.simps)
    qed
  qed
qed

lemma exit_signal:
  assumes "p < length (procs (exec f evs))"
    and "processState (procs (exec f evs) ! p) = Running"
  shows "signals (step f (exec f evs) (Proc p (ProcExited code status))) =
           signals (exec f evs) @
             [\<lparr>origin = p, requestId = fst (runCalls evs ! p),
               stdoutData = f (stdoutBuffer (procs (exec f evs) ! p)), exitCode = code\<rparr>]
         \<and> processState (procs (step f (exec f evs) (Proc p (ProcExited code status))) ! p)
             = NotRunning"
proof -
  from assms(1) have "p < length (runCalls evs)" by (simp add: exec_length)
  from exec_object [OF this, of f]
  have conn: "finishedConnection (procs (exec f evs) ! p) = Some (fst (runCalls evs ! p))"
    by simp
  from tidy_exec [of f evs] assms have alive: "\<not> deleted (procs (exec f evs) ! p)"
    by (simp add: tidy_def)
  from assms conn alive show ?thesis
    by (simp add: finishedSlot_def)
qed

lemma materialTheme_main:
  "materialTheme (main fromJson env) = Some (if isDark fromJson env then ''Dark'' else ''Light'')"
  by (simp add: materialTheme_def main_def Let_def)

lemma isDark_iff:
  "isDark fromJson env \<longleftrightarrow>
     value (readJsonFile fromJson (files env) (sessionPath env)) (QLatin1 ''isLightMode'')
       \<noteq> JsonBool True"
proof -
  have "toBool v False \<longleftrightarrow> v = JsonBool True" for v
    by (cases v) simp_all
  then show ?thesis by (simp add: isDark_def Let_def)
qed

lemma readJsonFile_empty:
  "files env path = None \<or> (\<exists>bytes. files env path = Some bytes \<and> fromJson bytes = NullDocument)
     \<Longrightarrow> readJsonFile fromJson (files env) path = Map.empty"
  by (auto simp: readJsonFile_def)

lemma at_most_once: "length (signalsOf p (exec f evs)) \<le> 1"
proof (cases "p < length (procs (exec f evs))")
  case True
  with tidy_exec [of f evs] show ?thesis by (simp add: tidy_def)
next
  case False
  with tidy_exec [of f evs] have "signalsOf p (exec f evs) = []"
    by (auto simp: tidy_def signalsOf_def filter_empty_conv)
  then show ?thesis by simp
qed

lemma exit_once:
  assumes "p < length (procs (exec f evs))"
    and "processState (procs (exec f evs) ! p) = Running"
  shows "length (signalsOf p (exec f (evs @ Proc p (ProcExited code status) # rest))) = 1"
proof -
  let ?r = "exec f evs"
  let ?r' = "step f ?r (Proc p (ProcExited code status))"
  from assms tidy_exec [of f evs] have none: "signalsOf p ?r = []"
    by (simp add: tidy_def)
  from exit_signal [OF assms, of code status]
  have sig: "signals ?r' = signals ?r @
             [\<lparr>origin = p, requestId = fst (runCalls evs ! p),
               stdoutData = f (stdoutBuffer (procs ?r ! p)), exitCode = code\<rparr>]"
    and idle: "processState (procs ?r' ! p) = NotRunning"
    by simp_all
  from assms(1) have len: "p < length (procs ?r')" by (simp only: step_Proc_length)
  from sig none have one: "length (signalsOf p ?r') = 1"
    by (simp add: signalsOf_def)
  from quiet_foldl [OF len idle, of f rest] one
  show ?thesis by (simp only: exec_append)
qed

lemma failure_silent:
  assumes "p < length (procs (exec f evs))"
    and "processState (procs (exec f evs) ! p) = Starting"
  shows "signalsOf p (exec f (evs @ Proc p FailedToStart # rest)) = []"
proof -
  let ?r = "exec f evs"
  let ?r' = "step f ?r (Proc p FailedToStart)"
  from assms tidy_exec [of f evs]
  have none: "signalsOf p ?r = []" and alive: "\<not> deleted (procs ?r ! p)"
    by (simp_all add: tidy_def)
  from assms(1) have len: "p < length (procs ?r')" by (simp only: step_Proc_length)
  from assms alive have idle: "processState (procs ?r' ! p) = NotRunning"
    by simp
  from assms none have "signalsOf p ?r' = []"
    by (simp add: signalsOf_Proc del: step.simps)
  with quiet_foldl [OF len idle, of f rest] show ?thesis
    by (simp only: exec_append)
qed

lemma step_failure:
  "signals (step f r (Proc pid FailedToStart)) = signals r \<and>
   launched (step f r (Proc pid FailedToStart)) = launched r \<and>
   length (procs (step f r (Proc pid FailedToStart))) = length (procs r)"
  by (simp add: step_Proc_signals step_Proc_launched step_Proc_length del: step.simps)

lemma stdout_appended:
  assumes "p < length (procs (exec f evs))"
    and "processState (procs (exec f evs) ! p) = Running"
  shows "stdoutBuffer (procs (exec f (evs @ [Proc p (StdoutReady bytes)])) ! p) =
           stdoutBuffer (procs (exec f evs) ! p) @ bytes"
proof -
  from tidy_exec [of f evs] assms have "\<not> deleted (procs (exec f evs) ! p)"
    by (simp add: tidy_def)
  with assms show ?thesis
    by (simp add: exec_snoc step_Proc_nth del: step.simps)
qed

lemma stderr_ignored:
  "signals (exec f (filter (\<lambda>ev. \<not> isStderr ev) evs)) = signals (exec f evs)"
proof -
  have "sameButStderr newProcessRunner newProcessRunner"
    by (simp add: sameButStderr_def)
  from sameButStderr_foldl [OF this, of f evs] show ?thesis
    by (simp add: sameButStderr_def exec_def)
qed

lemma alone:
  "map payload (signalsOf p (exec f evs)) =
     map payload (signalsOf 0 (exec f (onlyOwn p 0 evs)))"
proof -
  have "sameOwn p newProcessRunner newProcessRunner"
    by (simp add: sameOwn_def newProcessRunner_def signalsOf_def)
  from sameOwn_foldl [OF this, of f evs] show ?thesis
    by (simp add: sameOwn_def exec_def newProcessRunner_def)
qed

lemma main_dark:
  assumes "isDark fromJson env"
  shows "materialTheme (main fromJson env) = Some ''Dark''"
    and "printed (main fromJson env) =
           [LoadingQML, ConfigDirLine (configLocation env), StateDirLine (stateDir env),
            IsDarkLine True,
            if rootObjects env = 0 then FailedToLoadQML else QMLLoadedOK (rootObjects env)]"
    and "returned (main fromJson env) = (if rootObjects env = 0 then - 1 else execResult env)"
    and "eventLoop (main fromJson env) \<longleftrightarrow> rootObjects env \<noteq> 0"
  using assms by (simp_all add: materialTheme_def main_def Let_def)

lemmas bridge_defs = signalsOf_def exec_def newProcessRunner_def run_def start_def
          connectFinished_def newQProcess_def finishedSlot_def

subsection \<open>The claims\<close>

text \<open>
  C1. Every \<open>finished\<close> signal emitted for a call \<open>run(requestId, args)\<close> carries that
  request identifier unchanged. The call is the event \<open>Run rid args\<close> after the events
  \<open>pre\<close>; the process object it creates has index \<open>length (runCalls pre)\<close>, and every
  signal caused by that object, whatever happens before and after, has \<open>rid\<close> as
  its request identifier.
\<close>

theorem finished_carries_request_id:
  "e \<in> set (signalsOf (length (runCalls pre)) (exec fromUtf8 (pre @ Run rid args # post)))
     \<Longrightarrow> requestId e = rid"
proof -
  let ?evs = "pre @ Run rid args # post"
  assume "e \<in> set (signalsOf (length (runCalls pre)) (exec fromUtf8 ?evs))"
  then have mem: "e \<in> set (signals (exec fromUtf8 ?evs))"
    and org: "origin e = length (runCalls pre)"
    by (simp_all add: signalsOf_def)
  from exec_signal [OF mem] org
  have "requestId e = fst (runCalls ?evs ! length (runCalls pre))" by simp
  then show ?thesis by (simp add: runCalls_append)
qed

theorem finished_carries_request_id_witness:
  "\<lparr>origin = 0, requestId = QLatin1 ''r1'', stdoutData = map ucast [104, 105 :: 8 word],
      exitCode = 0\<rparr>
     \<in> set (signalsOf (length (runCalls []))
           (exec (map ucast)
              ([] @ Run (QLatin1 ''r1'') [QLatin1 ''list''] #
                 [Proc 0 ProcStarted, Proc 0 (StdoutReady [104, 105]),
                  Proc 0 (ProcExited 0 NormalExit)])))
   \<and> requestId \<lparr>origin = 0, requestId = QLatin1 ''r1'',
        stdoutData = map ucast [104, 105 :: 8 word], exitCode = 0\<rparr> = QLatin1 ''r1''"
proof -
  let ?e = "\<lparr>origin = 0, requestId = QLatin1 ''r1'', stdoutData = map ucast [104, 105 :: 8 word],
      exitCode = 0\<rparr>"
  have h: "?e \<in> set (signalsOf (length (runCalls []))
           (exec (map ucast)
              ([] @ Run (QLatin1 ''r1'') [QLatin1 ''list''] #
                 [Proc 0 ProcStarted, Proc 0 (StdoutReady [104, 105]),
                  Proc 0 (ProcExited 0 NormalExit)])))"
    by (simp add: signalsOf_def exec_def newProcessRunner_def run_def start_def
          connectFinished_def newQProcess_def finishedSlot_def)
  from finished_carries_request_id [OF h] h show ?thesis by simp
qed

text \<open>
  C2, as stated, fails: the claim promises exactly one \<open>finished\<close> signal for every call,
  also when the process cannot be launched. A call whose process fails to start is over
  (the object is \<open>NotRunning\<close>) and has produced no signal.
\<close>

theorem launch_failure_emits_no_finished:
  "processState (procs (exec (map ucast)
       [Run (QLatin1 ''r1'') [QLatin1 ''list''], Proc 0 FailedToStart]) ! 0) = NotRunning
   \<and> length (signalsOf 0 (exec (map ucast)
       [Run (QLatin1 ''r1'') [QLatin1 ''list''], Proc 0 FailedToStart])) \<noteq> 1"
  by (simp add: signalsOf_def exec_def newProcessRunner_def run_def start_def
        connectFinished_def newQProcess_def)

text \<open>
  C2, amended. A call of \<open>run\<close> emits nothing itself (the signal is asynchronous); no
  call ever causes more than one \<open>finished\<close> signal; a call whose process is running
  causes exactly one when the process exits, and that stays so whatever follows; a call
  whose process fails to start causes none, whatever follows.
\<close>

theorem finished_once_after_exit:
  "signals (step fromUtf8 r (Run rid args)) = signals r
   \<and> length (signalsOf p (exec fromUtf8 evs)) \<le> 1
   \<and> (p < length (procs (exec fromUtf8 evs))
        \<and> processState (procs (exec fromUtf8 evs) ! p) = Running
      \<longrightarrow> length (signalsOf p
             (exec fromUtf8 (evs @ Proc p (ProcExited code status) # rest))) = 1)
   \<and> (p < length (procs (exec fromUtf8 evs))
        \<and> processState (procs (exec fromUtf8 evs) ! p) = Starting
      \<longrightarrow> signalsOf p (exec fromUtf8 (evs @ Proc p FailedToStart # rest)) = [])"
  using at_most_once [of p fromUtf8 evs]
  by (simp add: run_signals exit_once failure_silent)

theorem finished_once_after_exit_witness:
  "(0 < length (procs (exec (map ucast)
        [Run (QLatin1 ''r1'') [QLatin1 ''list''], Proc 0 ProcStarted]))
    \<and> processState (procs (exec (map ucast)
        [Run (QLatin1 ''r1'') [QLatin1 ''list''], Proc 0 ProcStarted]) ! 0) = Running)
   \<and> length (signalsOf 0 (exec (map ucast)
        ([Run (QLatin1 ''r1'') [QLatin1 ''list''], Proc 0 ProcStarted] @
           Proc 0 (ProcExited 2 NormalExit) #
           [Proc 0 (ProcExited 2 NormalExit), Proc 0 DeferredDelete]))) = 1
   \<and> (0 < length (procs (exec (map ucast) [Run (QLatin1 ''r2'') []]))
    \<and> processState (procs (exec (map ucast) [Run (QLatin1 ''r2'') []]) ! 0) = Starting)
   \<and> signalsOf 0 (exec (map ucast)
        ([Run (QLatin1 ''r2'') []] @ Proc 0 FailedToStart # [Proc 0 DeferredDelete])) = []"
proof -
  have h: "0 < length (procs (exec (map ucast)
        [Run (QLatin1 ''r1'') [QLatin1 ''list''], Proc 0 ProcStarted]))
    \<and> processState (procs (exec (map ucast)
        [Run (QLatin1 ''r1'') [QLatin1 ''list''], Proc 0 ProcStarted]) ! 0) = Running"
    by (simp add: bridge_defs)
  have g: "0 < length (procs (exec (map ucast) [Run (QLatin1 ''r2'') []]))
    \<and> processState (procs (exec (map ucast) [Run (QLatin1 ''r2'') []]) ! 0) = Starting"
    by (simp add: bridge_defs)
  from finished_once_after_exit [of "map ucast" newProcessRunner "[]" "[]" 0
         "[Run (QLatin1 ''r1'') [QLatin1 ''list''], Proc 0 ProcStarted]" 2 NormalExit
         "[Proc 0 (ProcExited 2 NormalExit), Proc 0 DeferredDelete]"] h
       finished_once_after_exit [of "map ucast" newProcessRunner "[]" "[]" 0
         "[Run (QLatin1 ''r2'') []]" 0 NormalExit "[Proc 0 DeferredDelete]"] g
  show ?thesis by blast
qed

text \<open>
  C3. At most one \<open>finished\<close> signal is ever emitted for a launched process: whatever
  the event loop delivers, and in whatever order, the callback of process object \<open>p\<close>
  fires at most once. Each call of \<open>run\<close> makes a process object of its own, starts it
  once and never again, and the object announces the end of its process only when it
  leaves the state \<open>Running\<close>.
\<close>

theorem at_most_one_finished_per_process:
  "length (signalsOf p (exec fromUtf8 evs)) \<le> 1"
  by (rule at_most_once)

theorem at_most_one_finished_per_process_witness:
  "length (signalsOf 0 (exec (map ucast)
      [Run (QLatin1 ''r1'') [QLatin1 ''list''], Proc 0 ProcStarted,
       Proc 0 (ProcExited 2 NormalExit), Proc 0 (ProcExited 2 NormalExit)])) \<le> 1"
  by (rule at_most_one_finished_per_process)

text \<open>
  C4. Every call of \<open>run\<close> launches the executable \<^verbatim>\<open>"muralis"\<close> with exactly the
  arguments of the caller, in their order: one call adds one launch request with that
  program and those arguments; over any sequence of events the launch requests are, call
  by call, \<^verbatim>\<open>"muralis"\<close> with the arguments of the call; and the process object of call
  \<open>p\<close> holds that program and those arguments.
\<close>

theorem launches_muralis_with_given_arguments:
  "launched (run rid args r) = launched r @ [(QLatin1 ''muralis'', args)]
   \<and> launched (exec fromUtf8 evs) = map (\<lambda>c. (QLatin1 ''muralis'', snd c)) (runCalls evs)
   \<and> (p < length (runCalls evs) \<longrightarrow>
        program (procs (exec fromUtf8 evs) ! p) = QLatin1 ''muralis'' \<and>
        arguments (procs (exec fromUtf8 evs) ! p) = snd (runCalls evs ! p))"
  by (simp add: run_launched exec_launched exec_object)

theorem launches_muralis_with_given_arguments_witness:
  "0 < length (runCalls [Run (QLatin1 ''r1'') [QLatin1 ''apply'', QLatin1 ''--dry'', QLatin1 ''apply''],
                         Proc 0 FailedToStart])
   \<and> launched (exec (map ucast)
        [Run (QLatin1 ''r1'') [QLatin1 ''apply'', QLatin1 ''--dry'', QLatin1 ''apply''],
         Proc 0 FailedToStart])
       = [(QLatin1 ''muralis'', [QLatin1 ''apply'', QLatin1 ''--dry'', QLatin1 ''apply''])]
   \<and> arguments (procs (exec (map ucast)
        [Run (QLatin1 ''r1'') [QLatin1 ''apply'', QLatin1 ''--dry'', QLatin1 ''apply''],
         Proc 0 FailedToStart]) ! 0)
       = [QLatin1 ''apply'', QLatin1 ''--dry'', QLatin1 ''apply'']"
  using launches_muralis_with_given_arguments [of "QLatin1 ''r1''" "[]" newProcessRunner
      "map ucast"
      "[Run (QLatin1 ''r1'') [QLatin1 ''apply'', QLatin1 ''--dry'', QLatin1 ''apply''],
        Proc 0 FailedToStart]" 0]
  by simp

text \<open>
  C5. When a running process exits, exactly one signal is added: its second argument is
  the decoding of the bytes held by the standard-output channel of that process, its
  third argument the exit code. Bytes arriving on standard output are appended to that
  channel, and what arrives on standard error has no influence on any signal: removing
  every standard-error notification from the events leaves the signals as they are.
\<close>

theorem finished_reports_stdout_and_exit_code:
  "(p < length (procs (exec fromUtf8 evs))
      \<and> processState (procs (exec fromUtf8 evs) ! p) = Running
    \<longrightarrow> signals (exec fromUtf8 (evs @ [Proc p (ProcExited code status)])) =
          signals (exec fromUtf8 evs) @
            [\<lparr>origin = p, requestId = fst (runCalls evs ! p),
              stdoutData = fromUtf8 (stdoutBuffer (procs (exec fromUtf8 evs) ! p)),
              exitCode = code\<rparr>]
        \<and> stdoutBuffer (procs (exec fromUtf8 (evs @ [Proc p (StdoutReady bytes)])) ! p) =
            stdoutBuffer (procs (exec fromUtf8 evs) ! p) @ bytes)
   \<and> signals (exec fromUtf8 (filter (\<lambda>ev. \<not> isStderr ev) evs)) = signals (exec fromUtf8 evs)"
  using exit_signal [of p fromUtf8 evs code status] stdout_appended [of p fromUtf8 evs bytes]
  by (simp add: exec_snoc stderr_ignored del: step.simps)

theorem finished_reports_stdout_and_exit_code_witness:
  "(0 < length (procs (exec (map ucast)
        [Run (QLatin1 ''r1'') [QLatin1 ''list''], Proc 0 ProcStarted,
         Proc 0 (StdoutReady [104, 105]), Proc 0 (StderrReady [33]),
         Proc 0 (StdoutReady [10])]))
    \<and> processState (procs (exec (map ucast)
        [Run (QLatin1 ''r1'') [QLatin1 ''list''], Proc 0 ProcStarted,
         Proc 0 (StdoutReady [104, 105]), Proc 0 (StderrReady [33]),
         Proc 0 (StdoutReady [10])]) ! 0) = Running)
   \<and> signals (exec (map ucast)
        ([Run (QLatin1 ''r1'') [QLatin1 ''list''], Proc 0 ProcStarted,
          Proc 0 (StdoutReady [104, 105]), Proc 0 (StderrReady [33]),
          Proc 0 (StdoutReady [10])] @ [Proc 0 (ProcExited 3 NormalExit)]))
       = [\<lparr>origin = 0, requestId = QLatin1 ''r1'',
            stdoutData = map ucast [104, 105, 10 :: 8 word], exitCode = 3\<rparr>]"
proof -
  let ?evs = "[Run (QLatin1 ''r1'') [QLatin1 ''list''], Proc 0 ProcStarted,
         Proc 0 (StdoutReady [104, 105]), Proc 0 (StderrReady [33]),
         Proc 0 (StdoutReady [10])]"
  have h: "0 < length (procs (exec (map ucast) ?evs))
      \<and> processState (procs (exec (map ucast) ?evs) ! 0) = Running"
    by (simp add: bridge_defs)
  have b: "stdoutBuffer (procs (exec (map ucast) ?evs) ! 0) = [104, 105, 10]"
    and s: "signals (exec (map ucast) ?evs) = []"
    by (simp_all add: bridge_defs)
  from finished_reports_stdout_and_exit_code [of 0 "map ucast" ?evs 3 NormalExit "[]"] h
  have "signals (exec (map ucast) (?evs @ [Proc 0 (ProcExited 3 NormalExit)])) =
          signals (exec (map ucast) ?evs) @
            [\<lparr>origin = 0, requestId = fst (runCalls ?evs ! 0),
              stdoutData = map ucast (stdoutBuffer (procs (exec (map ucast) ?evs) ! 0)),
              exitCode = 3\<rparr>]"
    by blast
  with h show ?thesis by (simp only: b s) simp
qed

text \<open>
  C6. A process that fails to launch surfaces nothing: the failure notification emits
  no signal (and \<open>finished\<close> is the only signal of the bridge), issues no launch request
  and creates no process object, so there is no retry; over any sequence of events there
  is one launch request per call of \<open>run\<close>; and after the failure no signal is ever
  emitted for that process. \<open>run\<close> itself is a total function: it has no error result.
\<close>

theorem launch_failure_is_silent:
  "signals (step fromUtf8 r (Proc pid FailedToStart)) = signals r
   \<and> launched (step fromUtf8 r (Proc pid FailedToStart)) = launched r
   \<and> length (procs (step fromUtf8 r (Proc pid FailedToStart))) = length (procs r)
   \<and> length (launched (exec fromUtf8 evs)) = length (runCalls evs)
   \<and> (p < length (procs (exec fromUtf8 evs))
        \<and> processState (procs (exec fromUtf8 evs) ! p) = Starting
      \<longrightarrow> signals (exec fromUtf8 (evs @ [Proc p FailedToStart])) = signals (exec fromUtf8 evs)
          \<and> launched (exec fromUtf8 (evs @ [Proc p FailedToStart])) = launched (exec fromUtf8 evs)
          \<and> processState (procs (exec fromUtf8 (evs @ [Proc p FailedToStart])) ! p) = NotRunning
          \<and> signalsOf p (exec fromUtf8 (evs @ Proc p FailedToStart # rest)) = [])"
proof -
  have "processState (procs (exec fromUtf8 (evs @ [Proc p FailedToStart])) ! p) = NotRunning"
    if "p < length (procs (exec fromUtf8 evs))"
      and "processState (procs (exec fromUtf8 evs) ! p) = Starting"
  proof -
    from tidy_exec [of fromUtf8 evs] that have "\<not> deleted (procs (exec fromUtf8 evs) ! p)"
      by (simp add: tidy_def)
    with that show ?thesis by (simp add: exec_snoc step_Proc_nth del: step.simps)
  qed
  then show ?thesis
    using step_failure [of fromUtf8 r pid] step_failure [of fromUtf8 "exec fromUtf8 evs" p]
    by (simp add: exec_launched exec_snoc failure_silent del: step.simps)
qed

theorem launch_failure_is_silent_witness:
  "(0 < length (procs (exec (map ucast) [Run (QLatin1 ''r1'') [QLatin1 ''list'']]))
    \<and> processState (procs (exec (map ucast) [Run (QLatin1 ''r1'') [QLatin1 ''list'']]) ! 0)
        = Starting)
   \<and> signals (exec (map ucast)
        ([Run (QLatin1 ''r1'') [QLatin1 ''list'']] @ [Proc 0 FailedToStart])) = []
   \<and> launched (exec (map ucast)
        ([Run (QLatin1 ''r1'') [QLatin1 ''list'']] @ [Proc 0 FailedToStart]))
       = [(QLatin1 ''muralis'', [QLatin1 ''list''])]
   \<and> signalsOf 0 (exec (map ucast)
        ([Run (QLatin1 ''r1'') [QLatin1 ''list'']] @ Proc 0 FailedToStart #
           [Proc 0 ProcStarted, Proc 0 (ProcExited 0 NormalExit)])) = []"
proof -
  let ?evs = "[Run (QLatin1 ''r1'') [QLatin1 ''list'']]"
  have h: "0 < length (procs (exec (map ucast) ?evs))
     \<and> processState (procs (exec (map ucast) ?evs) ! 0) = Starting"
    by (simp add: bridge_defs)
  have s: "signals (exec (map ucast) ?evs) = []"
    and l: "launched (exec (map ucast) ?evs) = [(QLatin1 ''muralis'', [QLatin1 ''list''])]"
    by (simp_all add: bridge_defs)
  from launch_failure_is_silent [of "map ucast" newProcessRunner 0 ?evs 0
      "[Proc 0 ProcStarted, Proc 0 (ProcExited 0 NormalExit)]"] h s l
  show ?thesis by simp
qed

text \<open>
  C7. When the session file cannot be opened, or its contents cannot be parsed (the
  parser returns the null document), \<open>readJsonFile\<close> returns the empty object and the
  start-up goes on with the Dark theme: \<open>main\<close> prints the same lines as ever, nothing
  about the file, and its result depends on the loading of the user interface only.
\<close>

theorem unreadable_session_is_tolerated:
  assumes "files env (sessionPath env) = None \<or>
           (\<exists>bytes. files env (sessionPath env) = Some bytes \<and> fromJson bytes = NullDocument)"
  shows "readJsonFile fromJson (files env) (sessionPath env) = Map.empty
         \<and> materialTheme (main fromJson env) = Some ''Dark''
         \<and> printed (main fromJson env) =
             [LoadingQML, ConfigDirLine (configLocation env), StateDirLine (stateDir env),
              IsDarkLine True,
              if rootObjects env = 0 then FailedToLoadQML else QMLLoadedOK (rootObjects env)]
         \<and> returned (main fromJson env) = (if rootObjects env = 0 then - 1 else execResult env)
         \<and> (eventLoop (main fromJson env) \<longleftrightarrow> rootObjects env \<noteq> 0)"
proof -
  from assms have empty: "readJsonFile fromJson (files env) (sessionPath env) = Map.empty"
    by (rule readJsonFile_empty)
  then have "isDark fromJson env" by (simp add: isDark_iff value_def)
  from main_dark [OF this] empty show ?thesis by simp
qed

theorem unreadable_session_is_tolerated_witness:
  "(files \<lparr>genericDataLocation = QLatin1 ''/home/u/.local/share'',
           configLocation = QLatin1 ''/home/u/.config'',
           files = (\<lambda>path. Some [123, 33]), rootObjects = 1, execResult = 0\<rparr>
      (sessionPath \<lparr>genericDataLocation = QLatin1 ''/home/u/.local/share'',
           configLocation = QLatin1 ''/home/u/.config'',
           files = (\<lambda>path. Some [123, 33]), rootObjects = 1, execResult = 0\<rparr>) = Some [123, 33]
    \<and> (\<lambda>bytes. if bytes = [123, 33 :: 8 word] then NullDocument
                 else ObjectDocument Map.empty) [123, 33] = NullDocument)
   \<and> materialTheme (main (\<lambda>bytes. if bytes = [123, 33] then NullDocument
                                   else ObjectDocument Map.empty)
        \<lparr>genericDataLocation = QLatin1 ''/home/u/.local/share'',
           configLocation = QLatin1 ''/home/u/.config'',
           files = (\<lambda>path. Some [123, 33]), rootObjects = 1, execResult = 0\<rparr>) = Some ''Dark''
   \<and> returned (main (\<lambda>bytes. if bytes = [123, 33] then NullDocument
                                   else ObjectDocument Map.empty)
        \<lparr>genericDataLocation = QLatin1 ''/home/u/.local/share'',
           configLocation = QLatin1 ''/home/u/.config'',
           files = (\<lambda>path. Some [123, 33]), rootObjects = 1, execResult = 0\<rparr>) = 0"
proof -
  let ?env = "\<lparr>genericDataLocation = QLatin1 ''/home/u/.local/share'',
           configLocation = QLatin1 ''/home/u/.config'',
           files = (\<lambda>path. Some [123, 33 :: 8 word]), rootObjects = 1, execResult = 0\<rparr>"
  let ?parse = "\<lambda>bytes. if bytes = [123, 33 :: 8 word] then NullDocument
                 else ObjectDocument Map.empty"
  have h: "files ?env (sessionPath ?env) = Some [123, 33] \<and> ?parse [123, 33] = NullDocument"
    by simp
  then have "files ?env (sessionPath ?env) = None \<or>
           (\<exists>bytes. files ?env (sessionPath ?env) = Some bytes \<and> ?parse bytes = NullDocument)"
    by blast
  from unreadable_session_is_tolerated [OF this] h show ?thesis by simp
qed

text \<open>
  C8. When loading the user interface yields no root object, \<open>main\<close> returns \<open>-1\<close>, so
  the exit status of the process is 255, not zero, and the event loop is never entered.
\<close>

theorem qml_load_failure_is_fatal:
  "rootObjects env = 0 \<Longrightarrow>
     returned (main fromJson env) = - 1
     \<and> exitStatus (returned (main fromJson env)) = 255
     \<and> exitStatus (returned (main fromJson env)) \<noteq> 0
     \<and> \<not> eventLoop (main fromJson env)
     \<and> last (printed (main fromJson env)) = FailedToLoadQML"
  by (simp add: main_def Let_def exitStatus_def)

theorem qml_load_failure_is_fatal_witness:
  "rootObjects \<lparr>genericDataLocation = QLatin1 ''/home/u/.local/share'',
       configLocation = QLatin1 ''/home/u/.config'',
       files = (\<lambda>path. None), rootObjects = 0, execResult = 0\<rparr> = 0
   \<and> exitStatus (returned (main (\<lambda>bytes. NullDocument)
       \<lparr>genericDataLocation = QLatin1 ''/home/u/.local/share'',
         configLocation = QLatin1 ''/home/u/.config'',
         files = (\<lambda>path. None), rootObjects = 0, execResult = 0\<rparr>)) = 255
   \<and> \<not> eventLoop (main (\<lambda>bytes. NullDocument)
       \<lparr>genericDataLocation = QLatin1 ''/home/u/.local/share'',
         configLocation = QLatin1 ''/home/u/.config'',
         files = (\<lambda>path. None), rootObjects = 0, execResult = 0\<rparr>)"
proof -
  let ?env = "\<lparr>genericDataLocation = QLatin1 ''/home/u/.local/share'',
       configLocation = QLatin1 ''/home/u/.config'',
       files = (\<lambda>path. None), rootObjects = 0, execResult = 0\<rparr>"
  have h: "rootObjects ?env = 0" by simp
  from qml_load_failure_is_fatal [OF h, of "\<lambda>bytes. NullDocument"] h
  show ?thesis by blast
qed

text \<open>
  C9. The theme is Light exactly when the session file can be opened, parses to an
  object, and that object holds the boolean \<open>true\<close> under \<^verbatim>\<open>"isLightMode"\<close>; in every other
  case it is Dark.
\<close>

theorem light_theme_iff_isLightMode_true:
  "(materialTheme (main fromJson env) = Some ''Light'' \<longleftrightarrow>
      (\<exists>bytes obj. files env (sessionPath env) = Some bytes \<and>
         fromJson bytes = ObjectDocument obj \<and>
         obj (QLatin1 ''isLightMode'') = Some (JsonBool True)))
   \<and> (materialTheme (main fromJson env) \<noteq> Some ''Light'' \<longleftrightarrow>
          materialTheme (main fromJson env) = Some ''Dark'')"
proof -
  let ?v = "value (readJsonFile fromJson (files env) (sessionPath env)) (QLatin1 ''isLightMode'')"
  have "?v = JsonBool True \<longleftrightarrow>
      (\<exists>bytes obj. files env (sessionPath env) = Some bytes \<and>
         fromJson bytes = ObjectDocument obj \<and>
         obj (QLatin1 ''isLightMode'') = Some (JsonBool True))"
  proof (cases "files env (sessionPath env)")
    case None
    then show ?thesis by (simp add: readJsonFile_def value_def)
  next
    case (Some bytes)
    then show ?thesis
      by (cases "fromJson bytes") (auto simp: readJsonFile_def value_def split: option.splits)
  qed
  then show ?thesis
    by (simp add: materialTheme_main isDark_iff)
qed

theorem light_theme_iff_isLightMode_true_witness:
  "materialTheme (main (\<lambda>bytes. ObjectDocument [QLatin1 ''isLightMode'' \<mapsto> JsonBool True])
      \<lparr>genericDataLocation = QLatin1 ''/home/u/.local/share'',
        configLocation = QLatin1 ''/home/u/.config'',
        files = (\<lambda>path. Some [123, 125]), rootObjects = 1, execResult = 0\<rparr>) = Some ''Light''
   \<and> materialTheme (main (\<lambda>bytes. ObjectDocument [QLatin1 ''isLightMode'' \<mapsto> JsonString (QLatin1 ''true'')])
      \<lparr>genericDataLocation = QLatin1 ''/home/u/.local/share'',
        configLocation = QLatin1 ''/home/u/.config'',
        files = (\<lambda>path. Some [123, 125]), rootObjects = 1, execResult = 0\<rparr>) = Some ''Dark''"
proof -
  let ?env = "\<lparr>genericDataLocation = QLatin1 ''/home/u/.local/share'',
        configLocation = QLatin1 ''/home/u/.config'',
        files = (\<lambda>path. Some [123, 125 :: 8 word]), rootObjects = 1, execResult = 0\<rparr>"
  have a: "\<exists>bytes obj. files ?env (sessionPath ?env) = Some bytes \<and>
         (\<lambda>bytes. ObjectDocument [QLatin1 ''isLightMode'' \<mapsto> JsonBool True]) bytes = ObjectDocument obj \<and>
         obj (QLatin1 ''isLightMode'') = Some (JsonBool True)"
    by simp
  have b: "\<not> (\<exists>bytes obj. files ?env (sessionPath ?env) = Some bytes \<and>
         (\<lambda>bytes. ObjectDocument [QLatin1 ''isLightMode'' \<mapsto> JsonString (QLatin1 ''true'')]) bytes = ObjectDocument obj \<and>
         obj (QLatin1 ''isLightMode'') = Some (JsonBool True))"
    by simp
  from light_theme_iff_isLightMode_true
         [of "\<lambda>bytes. ObjectDocument [QLatin1 ''isLightMode'' \<mapsto> JsonBool True]" ?env] a
       light_theme_iff_isLightMode_true
         [of "\<lambda>bytes. ObjectDocument [QLatin1 ''isLightMode'' \<mapsto> JsonString (QLatin1 ''true'')]" ?env] b
  show ?thesis by blast
qed

text \<open>
  C10. Invocations are isolated. Every call of \<open>run\<close> has a process object of its own,
  whose callback holds the request identifier of that call; and what is reported for
  invocation \<open>p\<close> (request identifier, standard output, exit code, signal by signal) is
  what is reported when \<open>p\<close> is the only invocation there is: no other call of \<open>run\<close>,
  before or while the process of \<open>p\<close> is in flight, and nothing that happens to another
  process changes it.
\<close>

theorem invocations_are_isolated:
  "length (procs (exec fromUtf8 evs)) = length (runCalls evs)
   \<and> (p < length (runCalls evs) \<longrightarrow>
        finishedConnection (procs (exec fromUtf8 evs) ! p) = Some (fst (runCalls evs ! p)))
   \<and> map payload (signalsOf p (exec fromUtf8 evs)) =
       map payload (signalsOf 0 (exec fromUtf8 (onlyOwn p 0 evs)))"
  using alone [of p fromUtf8 evs] by (simp add: exec_length exec_object)

theorem invocations_are_isolated_witness:
  "0 < length (runCalls
      [Run (QLatin1 ''a'') [QLatin1 ''list''], Proc 0 ProcStarted, Proc 0 (StdoutReady [1]),
       Run (QLatin1 ''b'') [QLatin1 ''show''], Proc 1 ProcStarted,
       Proc 1 (StdoutReady [2]), Proc 0 (StdoutReady [3]),
       Proc 1 (ProcExited 7 NormalExit), Proc 0 (ProcExited 0 NormalExit)])
   \<and> finishedConnection (procs (exec (map ucast)
      [Run (QLatin1 ''a'') [QLatin1 ''list''], Proc 0 ProcStarted, Proc 0 (StdoutReady [1]),
       Run (QLatin1 ''b'') [QLatin1 ''show''], Proc 1 ProcStarted,
       Proc 1 (StdoutReady [2]), Proc 0 (StdoutReady [3]),
       Proc 1 (ProcExited 7 NormalExit), Proc 0 (ProcExited 0 NormalExit)]) ! 0)
       = Some (QLatin1 ''a'')
   \<and> onlyOwn 0 0
      [Run (QLatin1 ''a'') [QLatin1 ''list''], Proc 0 ProcStarted, Proc 0 (StdoutReady [1]),
       Run (QLatin1 ''b'') [QLatin1 ''show''], Proc 1 ProcStarted,
       Proc 1 (StdoutReady [2]), Proc 0 (StdoutReady [3]),
       Proc 1 (ProcExited 7 NormalExit), Proc 0 (ProcExited 0 NormalExit)]
     = [Run (QLatin1 ''a'') [QLatin1 ''list''], Proc 0 ProcStarted, Proc 0 (StdoutReady [1]),
        Proc 0 (StdoutReady [3]), Proc 0 (ProcExited 0 NormalExit)]
   \<and> map payload (signalsOf 0 (exec (map ucast)
      [Run (QLatin1 ''a'') [QLatin1 ''list''], Proc 0 ProcStarted, Proc 0 (StdoutReady [1]),
       Run (QLatin1 ''b'') [QLatin1 ''show''], Proc 1 ProcStarted,
       Proc 1 (StdoutReady [2]), Proc 0 (StdoutReady [3]),
       Proc 1 (ProcExited 7 NormalExit), Proc 0 (ProcExited 0 NormalExit)]))
     = [(QLatin1 ''a'', map ucast [1, 3 :: 8 word], 0)]
   \<and> map payload (signalsOf 1 (exec (map ucast)
      [Run (QLatin1 ''a'') [QLatin1 ''list''], Proc 0 ProcStarted, Proc 0 (StdoutReady [1]),
       Run (QLatin1 ''b'') [QLatin1 ''show''], Proc 1 ProcStarted,
       Proc 1 (StdoutReady [2]), Proc 0 (StdoutReady [3]),
       Proc 1 (ProcExited 7 NormalExit), Proc 0 (ProcExited 0 NormalExit)]))
     = [(QLatin1 ''b'', map ucast [2 :: 8 word], 7)]"
proof -
  let ?evs = "[Run (QLatin1 ''a'') [QLatin1 ''list''], Proc 0 ProcStarted, Proc 0 (StdoutReady [1]),
       Run (QLatin1 ''b'') [QLatin1 ''show''], Proc 1 ProcStarted,
       Proc 1 (StdoutReady [2]), Proc 0 (StdoutReady [3]),
       Proc 1 (ProcExited 7 NormalExit), Proc 0 (ProcExited 0 NormalExit)]"
  have own0: "onlyOwn 0 0 ?evs =
      [Run (QLatin1 ''a'') [QLatin1 ''list''], Proc 0 ProcStarted, Proc 0 (StdoutReady [1]),
        Proc 0 (StdoutReady [3]), Proc 0 (ProcExited 0 NormalExit)]"
    and own1: "onlyOwn 1 0 ?evs =
      [Run (QLatin1 ''b'') [QLatin1 ''show''], Proc 0 ProcStarted, Proc 0 (StdoutReady [2]),
        Proc 0 (ProcExited 7 NormalExit)]"
    by simp_all
  have h: "0 < length (runCalls ?evs)" by simp
  from invocations_are_isolated [of "map ucast" ?evs 0] h
  have a: "finishedConnection (procs (exec (map ucast) ?evs) ! 0) = Some (fst (runCalls ?evs ! 0))"
    and b: "map payload (signalsOf 0 (exec (map ucast) ?evs)) =
       map payload (signalsOf 0 (exec (map ucast) (onlyOwn 0 0 ?evs)))"
    by blast+
  from invocations_are_isolated [of "map ucast" ?evs 1]
  have c: "map payload (signalsOf 1 (exec (map ucast) ?evs)) =
       map payload (signalsOf 0 (exec (map ucast) (onlyOwn 1 0 ?evs)))"
    by blast
  have a': "finishedConnection (procs (exec (map ucast) ?evs) ! 0) = Some (QLatin1 ''a'')"
    using a by simp
  have b': "map payload (signalsOf 0 (exec (map ucast) ?evs)) =
      [(QLatin1 ''a'', map ucast [1, 3 :: 8 word], 0)]"
    unfolding b own0 by (simp add: bridge_defs payload_def)
  have c': "map payload (signalsOf 1 (exec (map ucast) ?evs)) =
      [(QLatin1 ''b'', map ucast [2 :: 8 word], 7)]"
    unfolding c own1 by (simp add: bridge_defs payload_def)
  from h a' own0 b' c' show ?thesis by blast
qed

end
